theory Spec2Isabelle
  imports Main
begin

text \<open>
  The script \<^verbatim>\<open>devtools/convert_state.py\<close> reads a state document and a config
  document, maps them to a document in the new format and dumps it. This theory embeds
  \<^verbatim>\<open>convert_library\<close> and \<^verbatim>\<open>main\<close> with the Python operations they use, and
  proves what the specification says about them.
\<close>

section \<open>Values of the YAML documents\<close>

text \<open>
  \<^verbatim>\<open>yaml.safe_load\<close> returns nested Python values. The model has the ones the script
  can tell apart: \<^verbatim>\<open>None\<close>, booleans, integers, strings, lists and dictionaries with
  string keys. A dictionary is an association list in insertion order (Python keeps that
  order and \<^verbatim>\<open>yaml.dump(..., sort_keys=False)\<close> emits it); a key is looked up with
  \<open>map_of\<close>, and the keys of a loaded dictionary are distinct. Floats, timestamps and
  binary scalars are not modelled. Strings are byte
  lists; every separator the script looks for is ASCII, so splitting bytes and splitting
  code points agree.
\<close>

datatype yaml =
    YNull
  | YBool bool
  | YInt int
  | YStr string
  | YList "yaml list"
  | YMap "(string \<times> yaml) list"

type_synonym dict = "(string \<times> yaml) list"

text \<open>The exceptions a run can end with.\<close>

datatype py_error = KeyError | TypeError | AttributeError | FileNotFoundError | YAMLError

type_synonym 'a result = "py_error + 'a"

section \<open>The Python operations the script uses\<close>

text \<open>Truth value of an object, as \<^verbatim>\<open>if x:\<close> tests it.\<close>

fun truthy :: "yaml \<Rightarrow> bool" where
  "truthy YNull = False"
| "truthy (YBool b) = b"
| "truthy (YInt i) = (i \<noteq> 0)"
| "truthy (YStr s) = (s \<noteq> [])"
| "truthy (YList xs) = (xs \<noteq> [])"
| "truthy (YMap m) = (m \<noteq> [])"

text \<open>
  \<^verbatim>\<open>x[k]\<close> with a string key \<open>k\<close>: a dictionary raises KeyError for a missing key;
  a list, a string, \<^verbatim>\<open>None\<close> and a number raise TypeError.
\<close>

fun getitem :: "yaml \<Rightarrow> string \<Rightarrow> yaml result" where
  "getitem (YMap m) k = (case map_of m k of None \<Rightarrow> Inl KeyError | Some v \<Rightarrow> Inr v)"
| "getitem YNull k = Inl TypeError"
| "getitem (YBool b) k = Inl TypeError"
| "getitem (YInt i) k = Inl TypeError"
| "getitem (YStr s) k = Inl TypeError"
| "getitem (YList xs) k = Inl TypeError"

text \<open>\<^verbatim>\<open>x.get(k, d)\<close>: only a dictionary has the method.\<close>

fun get_method :: "yaml \<Rightarrow> string \<Rightarrow> yaml \<Rightarrow> yaml result" where
  "get_method (YMap m) k d = Inr (case map_of m k of None \<Rightarrow> d | Some v \<Rightarrow> v)"
| "get_method YNull k d = Inl AttributeError"
| "get_method (YBool b) k d = Inl AttributeError"
| "get_method (YInt i) k d = Inl AttributeError"
| "get_method (YStr s) k d = Inl AttributeError"
| "get_method (YList xs) k d = Inl AttributeError"

text \<open>
  \<^verbatim>\<open>for x in v\<close>: a list gives its elements, a string its characters, a dictionary
  its keys; \<^verbatim>\<open>None\<close> and numbers are not iterable.
\<close>

fun iter :: "yaml \<Rightarrow> yaml list result" where
  "iter (YList xs) = Inr xs"
| "iter (YStr s) = Inr (map (\<lambda>c. YStr [c]) s)"
| "iter (YMap m) = Inr (map (\<lambda>kv. YStr (fst kv)) m)"
| "iter YNull = Inl TypeError"
| "iter (YBool b) = Inl TypeError"
| "iter (YInt i) = Inl TypeError"

text \<open>\<^verbatim>\<open>d[k] = v\<close>: an existing key keeps its place, a new key goes to the end.\<close>

fun setitem :: "dict \<Rightarrow> string \<Rightarrow> yaml \<Rightarrow> dict" where
  "setitem [] k v = [(k, v)]"
| "setitem (kv # d) k v = (if fst kv = k then (k, v) # d else kv # setitem d k v)"

text \<open>
  The pattern \<^verbatim>\<open>if src.get(k): dst[k'] = src[k]\<close>, which the script uses for
  \<^verbatim>\<open>service_config\<close>, \<^verbatim>\<open>preserve_regex\<close> and \<^verbatim>\<open>remove_regex\<close>.
\<close>

definition copy_if_truthy :: "yaml \<Rightarrow> string \<Rightarrow> string \<Rightarrow> dict \<Rightarrow> dict result" where
  "copy_if_truthy src k k' dst =
     (case get_method src k YNull of
        Inl e \<Rightarrow> Inl e
      | Inr flag \<Rightarrow>
          if truthy flag
          then (case getitem src k of Inl e \<Rightarrow> Inl e | Inr v \<Rightarrow> Inr (setitem dst k' v))
          else Inr dst)"

text \<open>
  A Python set is used for membership and \<^verbatim>\<open>len\<close> only. It is a HOL set of keys,
  where \<open>py_key\<close> identifies the values Python's hashing and \<^verbatim>\<open>==\<close> identify
  (\<^verbatim>\<open>True == 1\<close>, \<^verbatim>\<open>False == 0\<close>). Lists and dictionaries are unhashable.
\<close>

fun hashable :: "yaml \<Rightarrow> bool" where
  "hashable (YList xs) = False"
| "hashable (YMap m) = False"
| "hashable v = True"

fun py_key :: "yaml \<Rightarrow> yaml" where
  "py_key (YBool b) = YInt (if b then 1 else 0)"
| "py_key v = v"

definition set_add :: "yaml \<Rightarrow> yaml set \<Rightarrow> yaml set result" where
  "set_add x s = (if hashable x then Inr (insert (py_key x) s) else Inl TypeError)"

definition set_contains :: "yaml \<Rightarrow> yaml set \<Rightarrow> bool result" where
  "set_contains x s = (if hashable x then Inr (py_key x \<in> s) else Inl TypeError)"

subsection \<open>Strings\<close>

text \<open>\<^verbatim>\<open>sub in s\<close> for strings.\<close>

fun is_substr :: "string \<Rightarrow> string \<Rightarrow> bool" where
  "is_substr sub [] = (sub = [])"
| "is_substr sub (c # cs) = (take (length sub) (c # cs) = sub \<or> is_substr sub cs)"

text \<open>\<^verbatim>\<open>s.split(c)\<close> for a one-character separator: never an empty list.\<close>

fun split_on :: "char \<Rightarrow> string \<Rightarrow> string list" where
  "split_on c [] = [[]]"
| "split_on c (x # xs) =
     (if x = c then [] # split_on c xs
      else (case split_on c xs of [] \<Rightarrow> [[x]] | p # ps \<Rightarrow> (x # p) # ps))"

text \<open>\<^verbatim>\<open>sep.join(parts)\<close>.\<close>

fun join_str :: "string \<Rightarrow> string list \<Rightarrow> string" where
  "join_str sep [] = []"
| "join_str sep [p] = p"
| "join_str sep (p # q # ps) = p @ sep @ join_str sep (q # ps)"

text \<open>\<^verbatim>\<open>s.rsplit(c, 1)\<close>: at most one split, at the last occurrence of \<open>c\<close>.\<close>

definition rsplit1 :: "char \<Rightarrow> string \<Rightarrow> string list" where
  "rsplit1 c s =
     (if c \<in> set s
      then [rev (tl (dropWhile (\<lambda>x. x \<noteq> c) (rev s))), rev (takeWhile (\<lambda>x. x \<noteq> c) (rev s))]
      else [s])"

text \<open>\<^verbatim>\<open>str(n)\<close> for a length.\<close>

definition digit_char :: "nat \<Rightarrow> char" where
  "digit_char d = ''0123456789'' ! d"

fun str_nat :: "nat \<Rightarrow> string" where
  "str_nat n = (if n < 10 then [digit_char n] else str_nat (n div 10) @ [digit_char (n mod 10)])"

declare str_nat.simps [simp del]

section \<open>convert\_library\<close>

text \<open>
  Lines 10 to 48. Every subscript, method call and loop of the source is a step that
  can raise; the first exception ends the function.
\<close>

text \<open>The body of the loop over \<^verbatim>\<open>lib['apis']\<close>: the entry that is appended.\<close>

definition convert_api :: "yaml \<Rightarrow> yaml result" where
  "convert_api api =
     (case getitem api ''path'' of
        Inl e \<Rightarrow> Inl e
      | Inr p \<Rightarrow>
          (case copy_if_truthy api ''service_config'' ''service_config'' [(''path'', p)] of
             Inl e \<Rightarrow> Inl e
           | Inr api_entry \<Rightarrow> Inr (YMap api_entry)))"

text \<open>The loop itself; \<open>acc\<close> is \<^verbatim>\<open>generate['apis']\<close> so far.\<close>

fun convert_apis :: "yaml list \<Rightarrow> yaml list \<Rightarrow> yaml list result" where
  "convert_apis acc [] = Inr acc"
| "convert_apis acc (api # rest) =
     (case convert_api api of
        Inl e \<Rightarrow> Inl e
      | Inr api_entry \<Rightarrow> convert_apis (acc @ [api_entry]) rest)"

definition convert_library :: "yaml \<Rightarrow> dict result" where
  "convert_library lib =
     (case getitem lib ''id'' of
        Inl e \<Rightarrow> Inl e
      | Inr ident \<Rightarrow>
     (case get_method lib ''version'' YNull of
        Inl e \<Rightarrow> Inl e
      | Inr ver \<Rightarrow>
     (let result = [(''name'', ident), (''version'', ver)] in
      case get_method lib ''apis'' YNull of
        Inl e \<Rightarrow> Inl e
      | Inr has_apis \<Rightarrow>
          if truthy has_apis then
            (case getitem lib ''apis'' of
               Inl e \<Rightarrow> Inl e
             | Inr apis \<Rightarrow>
            (case iter apis of
               Inl e \<Rightarrow> Inl e
             | Inr api_list \<Rightarrow>
            (case convert_apis [] api_list of
               Inl e \<Rightarrow> Inl e
             | Inr entries \<Rightarrow>
            (case copy_if_truthy lib ''preserve_regex'' ''keep'' [(''apis'', YList entries)] of
               Inl e \<Rightarrow> Inl e
             | Inr generate1 \<Rightarrow>
            (case copy_if_truthy lib ''remove_regex'' ''remove'' generate1 of
               Inl e \<Rightarrow> Inl e
             | Inr generate \<Rightarrow> Inr (setitem result ''generate'' (YMap generate)))))))
          else Inr result)))"

section \<open>main\<close>

subsection \<open>The release-blocked identifiers (lines 61 to 66)\<close>

fun release_blocked_loop :: "yaml set \<Rightarrow> yaml list \<Rightarrow> yaml set result" where
  "release_blocked_loop rb [] = Inr rb"
| "release_blocked_loop rb (lib # rest) =
     (case get_method lib ''release_blocked'' YNull of
        Inl e \<Rightarrow> Inl e
      | Inr flag \<Rightarrow>
          if truthy flag then
            (case getitem lib ''id'' of
               Inl e \<Rightarrow> Inl e
             | Inr ident \<Rightarrow>
            (case set_add ident rb of
               Inl e \<Rightarrow> Inl e
             | Inr rb' \<Rightarrow> release_blocked_loop rb' rest))
          else release_blocked_loop rb rest)"

definition extract_release_blocked :: "yaml \<Rightarrow> yaml set result" where
  "extract_release_blocked config =
     (case get_method config ''libraries'' YNull of
        Inl e \<Rightarrow> Inl e
      | Inr has_libs \<Rightarrow>
          if truthy has_libs then
            (case getitem config ''libraries'' of
               Inl e \<Rightarrow> Inl e
             | Inr libs \<Rightarrow>
            (case iter libs of
               Inl e \<Rightarrow> Inl e
             | Inr lib_list \<Rightarrow> release_blocked_loop {} lib_list))
          else Inr {})"

subsection \<open>The container image reference (lines 69 to 80)\<close>

text \<open>
  The two branches on a string; the result is the pair of the source's variables
  \<^verbatim>\<open>image\<close> (here \<open>img\<close>) and \<^verbatim>\<open>tag\<close>.
\<close>

definition parse_image :: "string \<Rightarrow> string \<times> string" where
  "parse_image image_full =
     (if is_substr ''@sha256'' image_full then
        (let image_base = hd (split_on CHR ''@'' image_full);
             img = (if CHR ''/'' \<in> set image_base
                      then join_str ''/'' (butlast (split_on CHR ''/'' image_base))
                      else image_base);
             tag = (if CHR '':'' \<in> set image_base
                    then last (split_on CHR '':'' image_full)
                    else ''latest'')
         in (img, tag))
      else
        (let parts = rsplit1 CHR '':'' image_full;
             img = (if length parts > 1 then parts ! 0 else image_full);
             tag = (if length parts > 1 then parts ! 1 else ''latest'')
         in (img, tag)))"

text \<open>
  The value of \<^verbatim>\<open>state.get('image', '')\<close> need not be a string:
  \<^verbatim>\<open>'@sha256' in v\<close> raises TypeError for \<^verbatim>\<open>None\<close> and numbers; for a list or
  a dictionary it is a membership test, and \<^verbatim>\<open>split\<close> or \<^verbatim>\<open>rsplit\<close> then
  raises AttributeError.
\<close>

fun parse_image_value :: "yaml \<Rightarrow> (string \<times> string) result" where
  "parse_image_value (YStr s) = Inr (parse_image s)"
| "parse_image_value (YList xs) = Inl AttributeError"
| "parse_image_value (YMap m) = Inl AttributeError"
| "parse_image_value YNull = Inl TypeError"
| "parse_image_value (YBool b) = Inl TypeError"
| "parse_image_value (YInt i) = Inl TypeError"

subsection \<open>The output document (lines 82 to 108)\<close>

definition container_section :: "string \<Rightarrow> yaml" where
  "container_section img =
     YMap [(''image'', YStr (if CHR ''@'' \<notin> set img then img
                             else hd (split_on CHR ''@'' img))),
           (''tag'', YStr ''latest'')]"

definition generate_section :: yaml where
  "generate_section =
     YMap [(''output_dir'', YStr ''./''),
           (''defaults'', YMap [(''transport'', YStr ''grpc+rest''),
                                (''rest_numeric_enums'', YBool True),
                                (''release_level'', YStr ''stable'')])]"

definition release_section :: yaml where
  "release_section = YMap [(''tag_format'', YStr ''{id}/v{version}'')]"

definition build_output :: "string \<Rightarrow> dict" where
  "build_output img =
     (let output = [(''version'', YStr ''v0.5.0''), (''language'', YStr ''go'')];
          output = (if img \<noteq> [] then setitem output ''container'' (container_section img)
                    else output);
          output = setitem output ''generate'' generate_section;
          output = setitem output ''release'' release_section
      in output)"

subsection \<open>The libraries (lines 110 to 122)\<close>

definition release_blocked_comment :: yaml where
  "release_blocked_comment = YStr ''release_blocked: true (handwritten code)''"

text \<open>The body of the loop over the state's libraries: the record that is appended.\<close>

definition library_entry :: "yaml set \<Rightarrow> yaml \<Rightarrow> yaml result" where
  "library_entry release_blocked lib =
     (case convert_library lib of
        Inl e \<Rightarrow> Inl e
      | Inr converted \<Rightarrow>
     (case getitem lib ''id'' of
        Inl e \<Rightarrow> Inl e
      | Inr ident \<Rightarrow>
     (case set_contains ident release_blocked of
        Inl e \<Rightarrow> Inl e
      | Inr blocked \<Rightarrow>
          Inr (YMap (if blocked
                     then setitem converted ''_comment'' release_blocked_comment
                     else converted)))))"

text \<open>The loop itself; \<open>libraries\<close> is the list so far.\<close>

fun convert_libraries :: "yaml set \<Rightarrow> yaml list \<Rightarrow> yaml list \<Rightarrow> yaml list result" where
  "convert_libraries release_blocked libraries [] = Inr libraries"
| "convert_libraries release_blocked libraries (lib # rest) =
     (case library_entry release_blocked lib of
        Inl e \<Rightarrow> Inl e
      | Inr converted \<Rightarrow> convert_libraries release_blocked (libraries @ [converted]) rest)"

subsection \<open>From the two documents to the output document (lines 61 to 122)\<close>

text \<open>
  The result is the output document with \<^verbatim>\<open>len(libraries)\<close> and
  \<^verbatim>\<open>len(release_blocked)\<close>, which the summary lines print.
\<close>

definition main_convert :: "yaml \<Rightarrow> yaml \<Rightarrow> (dict \<times> nat \<times> nat) result" where
  "main_convert state config =
     (case extract_release_blocked config of
        Inl e \<Rightarrow> Inl e
      | Inr release_blocked \<Rightarrow>
     (case get_method state ''image'' (YStr []) of
        Inl e \<Rightarrow> Inl e
      | Inr image_full \<Rightarrow>
     (case parse_image_value image_full of
        Inl e \<Rightarrow> Inl e
      | Inr (img, tag) \<Rightarrow>
     (let output = build_output img in
      case get_method state ''libraries'' (YList []) of
        Inl e \<Rightarrow> Inl e
      | Inr libs \<Rightarrow>
     (case iter libs of
        Inl e \<Rightarrow> Inl e
      | Inr lib_list \<Rightarrow>
     (case convert_libraries release_blocked [] lib_list of
        Inl e \<Rightarrow> Inl e
      | Inr libraries \<Rightarrow>
          Inr (setitem output ''libraries'' (YList libraries),
               length libraries, card release_blocked)))))))"

subsection \<open>The run: files read, file written, lines printed\<close>

record dump_options =
  default_flow_style :: bool
  sort_keys :: bool
  allow_unicode :: bool
  width :: nat

text \<open>
  A file that \<^verbatim>\<open>yaml.safe_load\<close> reads either fails to parse or holds a document.
  The world of a run: the home directory, the readable files by path (an association
  list, read with \<open>map_of\<close>), and what the run
  has done so far: the directories it made, the documents it dumped (path, document,
  options of \<^verbatim>\<open>yaml.dump\<close>) and the lines it printed. The text that PyYAML produces
  from a document and the options is outside this script.
\<close>

datatype file_content = Malformed | Document yaml

record world =
  home :: string
  files :: "(string \<times> file_content) list"
  made_dirs :: "string list"
  dumped :: "(string \<times> yaml \<times> dump_options) list"
  stdout :: "string list"

definition safe_load_file :: "world \<Rightarrow> string \<Rightarrow> yaml result" where
  "safe_load_file w p =
     (case map_of (files w) p of
        None \<Rightarrow> Inl FileNotFoundError
      | Some Malformed \<Rightarrow> Inl YAMLError
      | Some (Document d) \<Rightarrow> Inr d)"

definition state_path :: "string \<Rightarrow> string" where
  "state_path h = h @ ''/code/googleapis/google-cloud-go/.librarian/state.yaml''"

definition config_path :: "string \<Rightarrow> string" where
  "config_path h = h @ ''/code/googleapis/google-cloud-go/.librarian/config.yaml''"

definition output_path :: string where
  "output_path = ''data/go/librarian.yaml''"

definition main_dump_options :: dump_options where
  "main_dump_options =
     \<lparr>default_flow_style = False, sort_keys = False, allow_unicode = True, width = 120\<rparr>"

text \<open>
  \<open>main\<close> returns the exception the run ended with, if any, and the world after it.
\<close>

definition main :: "world \<Rightarrow> py_error option \<times> world" where
  "main w =
     (case safe_load_file w (state_path (home w)) of
        Inl e \<Rightarrow> (Some e, w)
      | Inr state \<Rightarrow>
     (case safe_load_file w (config_path (home w)) of
        Inl e \<Rightarrow> (Some e, w)
      | Inr config \<Rightarrow>
     (case main_convert state config of
        Inl e \<Rightarrow> (Some e, w)
      | Inr (output, n_libraries, n_blocked) \<Rightarrow>
          (None,
           w\<lparr>made_dirs := made_dirs w @ [''data/go''],
             dumped := dumped w @ [(output_path, YMap output, main_dump_options)],
             stdout := stdout w @
               [''Converted '' @ str_nat n_libraries @ '' libraries to '' @ output_path,
                ''Release-blocked libraries: '' @ str_nat n_blocked]\<rparr>))))"

section \<open>Vocabulary of the statements\<close>

text \<open>A field of a mapping; a value that is no mapping has none.\<close>

fun field :: "string \<Rightarrow> yaml \<Rightarrow> yaml option" where
  "field k (YMap m) = map_of m k"
| "field k v = None"

text \<open>The value under a key when it is present and truthy ("present and non-empty").\<close>

definition kept :: "dict \<Rightarrow> string \<Rightarrow> yaml option" where
  "kept m k = (case map_of m k of None \<Rightarrow> None | Some v \<Rightarrow> if truthy v then Some v else None)"

text \<open>
  An API list that the loop of \<open>convert_library\<close> gets through: every entry is a mapping
  with a \<^verbatim>\<open>path\<close>; a missing or falsy \<^verbatim>\<open>apis\<close> is skipped.
\<close>

fun api_ok :: "yaml \<Rightarrow> bool" where
  "api_ok (YMap a) = (map_of a ''path'' \<noteq> None)"
| "api_ok v = False"

definition apis_convertible :: "dict \<Rightarrow> bool" where
  "apis_convertible lib =
     (case map_of lib ''apis'' of
        None \<Rightarrow> True
      | Some (YList apis) \<Rightarrow> list_all api_ok apis
      | Some v \<Rightarrow> \<not> truthy v)"

text \<open>
  An entry of the config document's library list names the identifier (up to Python's
  equality of keys) and has a truthy \<^verbatim>\<open>release_blocked\<close>; the config document blocks
  an identifier when its library list has such an entry.
\<close>

fun config_blocks :: "yaml \<Rightarrow> yaml \<Rightarrow> bool" where
  "config_blocks ident (YMap entry) =
     (kept entry ''release_blocked'' \<noteq> None \<and>
      (case map_of entry ''id'' of None \<Rightarrow> False | Some i \<Rightarrow> py_key i = py_key ident))"
| "config_blocks ident v = False"

definition blocked_in_config :: "yaml \<Rightarrow> yaml \<Rightarrow> bool" where
  "blocked_in_config config ident =
     (case field ''libraries'' config of
        Some (YList entries) \<Rightarrow> list_ex (config_blocks ident) entries
      | _ \<Rightarrow> False)"

section \<open>Example documents\<close>

definition example_lib :: dict where
  "example_lib =
     [(''id'', YStr ''storage''),
      (''version'', YStr ''1.2.0''),
      (''apis'', YList
         [YMap [(''path'', YStr ''google/storage/v1''),
                (''service_config'', YStr ''storage_v1.yaml'')],
          YMap [(''path'', YStr ''google/storage/v2''),
                (''service_config'', YStr [])]]),
      (''preserve_regex'', YList [YStr ''^storage/keep'']),
      (''remove_regex'', YList [])]"

definition example_record :: dict where
  "example_record =
     [(''name'', YStr ''storage''),
      (''version'', YStr ''1.2.0''),
      (''generate'', YMap
         [(''apis'', YList
            [YMap [(''path'', YStr ''google/storage/v1''),
                   (''service_config'', YStr ''storage_v1.yaml'')],
             YMap [(''path'', YStr ''google/storage/v2'')]]),
          (''keep'', YList [YStr ''^storage/keep''])])]"

definition example_state :: yaml where
  "example_state =
     YMap [(''image'', YStr ''gcr.io/cloud-devrel/librarian-go@sha256:abcd1234''),
           (''libraries'', YList
              [YMap example_lib,
               YMap [(''id'', YStr ''bigquery''), (''version'', YStr ''1.0.0'')]])]"

definition example_config :: yaml where
  "example_config =
     YMap [(''libraries'', YList
              [YMap [(''id'', YStr ''bigquery''), (''release_blocked'', YBool True)],
               YMap [(''id'', YStr ''spanner''), (''release_blocked'', YBool True)],
               YMap [(''id'', YStr ''storage'')]])]"

definition example_output :: dict where
  "example_output =
     [(''version'', YStr ''v0.5.0''),
      (''language'', YStr ''go''),
      (''container'', YMap [(''image'', YStr ''gcr.io/cloud-devrel''),
                            (''tag'', YStr ''latest'')]),
      (''generate'', generate_section),
      (''release'', release_section),
      (''libraries'', YList
         [YMap example_record,
          YMap [(''name'', YStr ''bigquery''), (''version'', YStr ''1.0.0''),
                (''_comment'', YStr ''release_blocked: true (handwritten code)'')]])]"




text \<open>A state document whose second library has no identifier.\<close>

definition state_without_id :: yaml where
  "state_without_id =
     YMap [(''libraries'', YList [YMap example_lib, YMap [(''version'', YStr ''0.1.0'')]])]"

definition world_without_id :: world where
  "world_without_id =
     \<lparr>home = ''/home/dev'',
      files = [(state_path ''/home/dev'', Document state_without_id),
               (config_path ''/home/dev'', Document example_config)],
      made_dirs = [], dumped = [], stdout = []\<rparr>"

text \<open>The same state document beside an empty config file, which loads as \<^verbatim>\<open>None\<close>.\<close>

definition world_without_id_empty_config :: world where
  "world_without_id_empty_config =
     \<lparr>home = ''/home/dev'',
      files = [(state_path ''/home/dev'', Document state_without_id),
               (config_path ''/home/dev'', Document YNull)],
      made_dirs = [], dumped = [], stdout = []\<rparr>"

section \<open>Lemmas about the Python operations\<close>

subsection \<open>Strings\<close>

lemma split_on_not_Nil: "split_on c s \<noteq> []"
  by (induction s) (auto split: list.splits)

lemma hd_split_on: "hd (split_on c s) = takeWhile (\<lambda>x. x \<noteq> c) s"
  by (induction s) (auto split: list.splits simp: split_on_not_Nil)

lemma split_on_pieces: "p \<in> set (split_on c s) \<Longrightarrow> c \<notin> set p"
  by (induction s arbitrary: p) (auto split: list.splits if_splits)

lemma join_str_snoc: "ps \<noteq> [] \<Longrightarrow> join_str sep (ps @ [p]) = join_str sep ps @ sep @ p"
  by (induction sep ps rule: join_str.induct) auto

lemma join_split_on: "join_str [c] (split_on c s) = s"
proof (induction s)
  case Nil
  then show ?case by simp
next
  case (Cons x xs)
  obtain p ps where ps: "split_on c xs = p # ps"
    using split_on_not_Nil [of c xs] by (cases "split_on c xs") auto
  show ?case
  proof (cases "x = c")
    case True
    with Cons ps show ?thesis by simp
  next
    case False
    with Cons ps show ?thesis by (cases ps) auto
  qed
qed

lemma split_on_length: "c \<in> set s \<Longrightarrow> 2 \<le> length (split_on c s)"
proof (induction s)
  case Nil
  then show ?case by simp
next
  case (Cons x xs)
  obtain p ps where ps: "split_on c xs = p # ps"
    using split_on_not_Nil [of c xs] by (cases "split_on c xs") auto
  with Cons show ?case by (cases "x = c") auto
qed

lemma split_on_last:
  assumes "c \<in> set s"
  shows "s = join_str [c] (butlast (split_on c s)) @ c # last (split_on c s) \<and>
         c \<notin> set (last (split_on c s))"
proof -
  let ?ps = "split_on c s"
  have ne: "?ps \<noteq> []" by (rule split_on_not_Nil)
  have "2 \<le> length ?ps" using assms by (rule split_on_length)
  then have b: "butlast ?ps \<noteq> []" by (cases ?ps) auto
  have "s = join_str [c] (butlast ?ps @ [last ?ps])"
    using ne by (simp add: join_split_on)
  also have "\<dots> = join_str [c] (butlast ?ps) @ [c] @ last ?ps"
    using b by (rule join_str_snoc)
  finally have "s = join_str [c] (butlast ?ps) @ c # last ?ps" by simp
  moreover have "c \<notin> set (last ?ps)"
    using ne by (intro split_on_pieces [of _ c s]) simp
  ultimately show ?thesis by blast
qed

lemma rsplit1_sep:
  assumes "c \<in> set s"
  shows "\<exists>a b. rsplit1 c s = [a, b] \<and> s = a @ c # b \<and> c \<notin> set b"
proof -
  let ?t = "takeWhile (\<lambda>x. x \<noteq> c) (rev s)"
  let ?d = "dropWhile (\<lambda>x. x \<noteq> c) (rev s)"
  have "c \<in> set (rev s)" using assms by simp
  then have d: "?d \<noteq> []" by (simp add: dropWhile_eq_Nil_conv)
  then have "hd ?d = c" using hd_dropWhile [of "\<lambda>x. x \<noteq> c" "rev s"] by simp
  with d have dd: "?d = c # tl ?d" by (cases ?d) auto
  have "rev s = ?t @ ?d" by simp
  then have "rev s = ?t @ c # tl ?d" using dd by simp
  then have "rev (rev s) = rev (?t @ c # tl ?d)" by (rule arg_cong)
  then have s: "s = rev (tl ?d) @ c # rev ?t" by simp
  have "c \<notin> set (rev ?t)" by (auto dest: set_takeWhileD)
  with s assms show ?thesis by (simp add: rsplit1_def)
qed

lemma rsplit1_no_sep: "c \<notin> set s \<Longrightarrow> rsplit1 c s = [s]"
  by (simp add: rsplit1_def)

lemma is_substr_iff: "is_substr sub s \<longleftrightarrow> (\<exists>a b. s = a @ sub @ b)"
proof (induction s)
  case Nil
  then show ?case by auto
next
  case (Cons x xs)
  show ?case
  proof
    assume "is_substr sub (x # xs)"
    then consider "take (length sub) (x # xs) = sub" | "is_substr sub xs" by auto
    then show "\<exists>a b. x # xs = a @ sub @ b"
    proof cases
      case 1
      then have "x # xs = [] @ sub @ drop (length sub) (x # xs)"
        by (metis append_Nil append_take_drop_id)
      then show ?thesis by blast
    next
      case 2
      with Cons obtain a b where "xs = a @ sub @ b" by blast
      then have "x # xs = (x # a) @ sub @ b" by simp
      then show ?thesis by blast
    qed
  next
    assume "\<exists>a b. x # xs = a @ sub @ b"
    then obtain a b where ab: "x # xs = a @ sub @ b" by blast
    show "is_substr sub (x # xs)"
    proof (cases a)
      case Nil
      with ab have "take (length sub) (x # xs) = sub" by simp
      then show ?thesis by simp
    next
      case (Cons y ys)
      with ab have "xs = ys @ sub @ b" by simp
      with Cons.IH show ?thesis by auto
    qed
  qed
qed

lemma is_substr_first: "is_substr (c # t) s \<Longrightarrow> c \<in> set s"
  by (auto simp: is_substr_iff)

subsection \<open>Dictionaries\<close>

lemma map_of_setitem: "map_of (setitem d k v) = (map_of d)(k \<mapsto> v)"
  by (induction d) (auto simp: fun_eq_iff)

lemma setitem_new: "k \<notin> fst ` set d \<Longrightarrow> setitem d k v = d @ [(k, v)]"
  by (induction d) auto

lemma copy_if_truthy_YMap:
  "copy_if_truthy (YMap m) k k' dst =
     Inr (case kept m k of None \<Rightarrow> dst | Some v \<Rightarrow> setitem dst k' v)"
  by (simp add: copy_if_truthy_def kept_def split: option.splits)

section \<open>Lemmas about convert\_library\<close>

lemma convert_api_YMap:
  "convert_api (YMap a) =
     (case map_of a ''path'' of
        None \<Rightarrow> Inl KeyError
      | Some p \<Rightarrow>
          Inr (YMap (case kept a ''service_config'' of
                       None \<Rightarrow> [(''path'', p)]
                     | Some v \<Rightarrow> [(''path'', p), (''service_config'', v)])))"
  by (simp add: convert_api_def copy_if_truthy_YMap split: option.splits)

lemma convert_api_not_map: "(\<forall>a. api \<noteq> YMap a) \<Longrightarrow> convert_api api = Inl TypeError"
  by (cases api) (simp_all add: convert_api_def)

lemma convert_api_Inr:
  "convert_api api = Inr e \<Longrightarrow>
     \<exists>a p. api = YMap a \<and> map_of a ''path'' = Some p \<and>
           e = YMap (case kept a ''service_config'' of
                       None \<Rightarrow> [(''path'', p)]
                     | Some v \<Rightarrow> [(''path'', p), (''service_config'', v)])"
  by (cases api) (auto simp: convert_api_YMap convert_api_not_map split: option.splits)

lemma convert_api_ok: "(\<exists>e. convert_api api = Inr e) \<longleftrightarrow> api_ok api"
  by (cases api) (auto simp: convert_api_YMap convert_api_not_map split: option.splits)

lemma convert_apis_Inr:
  "convert_apis acc apis = Inr r \<Longrightarrow>
     \<exists>es. r = acc @ es \<and> list_all2 (\<lambda>api e. convert_api api = Inr e) apis es"
proof (induction apis arbitrary: acc)
  case Nil
  then show ?case by simp
next
  case (Cons api rest)
  then obtain e where e: "convert_api api = Inr e" and r: "convert_apis (acc @ [e]) rest = Inr r"
    by (auto split: sum.splits)
  from Cons.IH [OF r] obtain es where "r = (acc @ [e]) @ es"
    and "list_all2 (\<lambda>api e. convert_api api = Inr e) rest es" by blast
  with e show ?case by (intro exI [of _ "e # es"]) simp
qed

lemma convert_apis_ok:
  "(\<exists>r. convert_apis acc apis = Inr r) \<longleftrightarrow> list_all api_ok apis"
proof (induction apis arbitrary: acc)
  case Nil
  then show ?case by simp
next
  case (Cons api rest)
  show ?case
  proof (cases "convert_api api")
    case (Inl e)
    then have "\<not> api_ok api" using convert_api_ok [of api] by auto
    with Inl show ?thesis by simp
  next
    case (Inr e)
    then have "api_ok api" using convert_api_ok [of api] by auto
    with Inr Cons.IH [of "acc @ [e]"] show ?thesis by simp
  qed
qed

lemma convert_library_YMap:
  "convert_library (YMap lib) =
     (case map_of lib ''id'' of
        None \<Rightarrow> Inl KeyError
      | Some ident \<Rightarrow>
          (let result = [(''name'', ident),
                         (''version'', case map_of lib ''version'' of None \<Rightarrow> YNull | Some v \<Rightarrow> v)]
           in case kept lib ''apis'' of
                None \<Rightarrow> Inr result
              | Some apis \<Rightarrow>
                  (case iter apis of
                     Inl e \<Rightarrow> Inl e
                   | Inr api_list \<Rightarrow>
                       (case convert_apis [] api_list of
                          Inl e \<Rightarrow> Inl e
                        | Inr entries \<Rightarrow>
                            Inr (result @
                              [(''generate'',
                                YMap ([(''apis'', YList entries)] @
                                  (case kept lib ''preserve_regex'' of
                                     None \<Rightarrow> [] | Some v \<Rightarrow> [(''keep'', v)]) @
                                  (case kept lib ''remove_regex'' of
                                     None \<Rightarrow> [] | Some v \<Rightarrow> [(''remove'', v)])))])))))"
  by (auto simp: convert_library_def copy_if_truthy_YMap kept_def Let_def
           split: option.splits sum.splits)

lemma convert_library_not_map: "(\<forall>m. lib \<noteq> YMap m) \<Longrightarrow> convert_library lib = Inl TypeError"
  by (cases lib) (simp_all add: convert_library_def)


lemma kept_Some:
  "kept m k = Some v \<Longrightarrow>
     map_of m k = Some v \<and> v \<noteq> YNull \<and> v \<noteq> YStr [] \<and> v \<noteq> YList [] \<and> v \<noteq> YMap []"
  by (auto simp: kept_def split: option.splits if_splits)

lemma convert_apis_iter_fails:
  assumes "truthy v" and "\<forall>apis. v \<noteq> YList apis" and "iter v = Inr api_list"
  shows "convert_apis acc api_list = Inl TypeError"
proof (cases v)
  case (YStr s)
  with assms obtain k rest where "api_list = YStr k # rest"
    by (cases s) auto
  then show ?thesis by (simp add: convert_api_not_map)
next
  case (YMap m)
  with assms obtain k rest where "api_list = YStr k # rest"
    by (cases m) auto
  then show ?thesis by (simp add: convert_api_not_map)
qed (use assms in auto)

lemma convert_library_ok:
  "(\<exists>result. convert_library (YMap lib) = Inr result) \<longleftrightarrow>
     map_of lib ''id'' \<noteq> None \<and> apis_convertible lib"
proof (cases "map_of lib ''id''")
  case None
  then show ?thesis by (simp add: convert_library_YMap)
next
  case (Some ident)
  show ?thesis
  proof (cases "kept lib ''apis''")
    case None
    then have "apis_convertible lib"
      by (auto simp: apis_convertible_def kept_def split: option.splits yaml.splits if_splits)
    with Some None show ?thesis by (simp add: convert_library_YMap)
  next
    case (Some v)
    then have v: "map_of lib ''apis'' = Some v" "truthy v"
      by (auto simp: kept_def split: option.splits if_splits)
    show ?thesis
    proof (cases "\<exists>apis. v = YList apis")
      case True
      then obtain apis where apis: "v = YList apis" by blast
      have "apis_convertible lib = list_all api_ok apis"
        using v apis by (simp add: apis_convertible_def)
      moreover have "(\<exists>r. convert_apis [] apis = Inr r) = list_all api_ok apis"
        by (rule convert_apis_ok)
      ultimately show ?thesis
        using \<open>map_of lib ''id'' = Some ident\<close> Some apis
        by (cases "convert_apis [] apis") (auto simp: convert_library_YMap Let_def)
    next
      case False
      then have nl: "\<forall>apis. v \<noteq> YList apis" by blast
      have "\<not> apis_convertible lib"
        using v nl by (cases v) (auto simp: apis_convertible_def)
      moreover have "\<not> (\<exists>result. convert_library (YMap lib) = Inr result)"
      proof (cases "iter v")
        case (Inl e)
        with \<open>map_of lib ''id'' = Some ident\<close> Some show ?thesis
          by (simp add: convert_library_YMap Let_def)
      next
        case (Inr api_list)
        from convert_apis_iter_fails [OF v(2) nl Inr]
        have "convert_apis [] api_list = Inl TypeError" .
        with Inr \<open>map_of lib ''id'' = Some ident\<close> Some show ?thesis
          by (simp add: convert_library_YMap Let_def)
      qed
      ultimately show ?thesis by blast
    qed
  qed
qed

lemma convert_library_name_version:
  assumes "convert_library (YMap lib) = Inr result"
  shows "map_of result ''name'' = map_of lib ''id'' \<and> map_of lib ''id'' \<noteq> None \<and>
         map_of result ''version'' =
           Some (case map_of lib ''version'' of None \<Rightarrow> YNull | Some v \<Rightarrow> v) \<and>
         map_of result ''_comment'' = None"
  using assms
  by (auto simp: convert_library_YMap Let_def split: option.splits sum.splits)

section \<open>Lemmas about main\<close>

lemma build_output_eq:
  "build_output img =
     [(''version'', YStr ''v0.5.0''), (''language'', YStr ''go'')] @
     (if img \<noteq> [] then [(''container'', container_section img)] else []) @
     [(''generate'', generate_section), (''release'', release_section)]"
  by (simp add: build_output_def Let_def)

lemma build_output_libraries:
  "setitem (build_output img) ''libraries'' v = build_output img @ [(''libraries'', v)]"
  by (simp add: build_output_eq)

lemma get_method_Inr:
  "get_method v k d = Inr r \<Longrightarrow>
     \<exists>m. v = YMap m \<and> r = (case map_of m k of None \<Rightarrow> d | Some x \<Rightarrow> x)"
  by (cases v) auto

lemma parse_image_value_Inr:
  "parse_image_value v = Inr r \<Longrightarrow> \<exists>s. v = YStr s \<and> r = parse_image s"
  by (cases v) auto

lemma main_convert_Inr:
  assumes "main_convert state config = Inr (output, n, k)"
  shows "\<exists>st rb s lib_list libraries.
           state = YMap st \<and>
           extract_release_blocked config = Inr rb \<and>
           (case map_of st ''image'' of None \<Rightarrow> YStr [] | Some v \<Rightarrow> v) = YStr s \<and>
           iter (case map_of st ''libraries'' of None \<Rightarrow> YList [] | Some v \<Rightarrow> v) = Inr lib_list \<and>
           convert_libraries rb [] lib_list = Inr libraries \<and>
           output = build_output (fst (parse_image s)) @ [(''libraries'', YList libraries)] \<and>
           n = length libraries \<and> k = card rb"
proof -
  from assms obtain rb where rb: "extract_release_blocked config = Inr rb"
    by (auto simp: main_convert_def split: sum.splits)
  from assms rb obtain image_full where
    image_full: "get_method state ''image'' (YStr []) = Inr image_full"
    by (auto simp: main_convert_def split: sum.splits)
  then obtain st where st: "state = YMap st"
    and iv: "image_full = (case map_of st ''image'' of None \<Rightarrow> YStr [] | Some v \<Rightarrow> v)"
    by (auto dest: get_method_Inr)
  from assms rb image_full obtain img tag where
    pv: "parse_image_value image_full = Inr (img, tag)"
    by (auto simp: main_convert_def split: sum.splits)
  then obtain s where s: "image_full = YStr s" and p: "parse_image s = (img, tag)"
    by (auto dest: parse_image_value_Inr)
  from assms rb image_full pv st obtain lib_list where
    ll: "iter (case map_of st ''libraries'' of None \<Rightarrow> YList [] | Some v \<Rightarrow> v) = Inr lib_list"
    by (auto simp: main_convert_def Let_def split: sum.splits)
  from assms rb image_full pv st ll obtain libraries where
    libs: "convert_libraries rb [] lib_list = Inr libraries"
    by (auto simp: main_convert_def Let_def split: sum.splits)
  from assms rb image_full pv st ll libs
  have "output = setitem (build_output img) ''libraries'' (YList libraries)"
    and "n = length libraries" and "k = card rb"
    by (auto simp: main_convert_def Let_def)
  then have "output = build_output (fst (parse_image s)) @ [(''libraries'', YList libraries)]"
    and "n = length libraries" and "k = card rb"
    using p by (simp_all add: build_output_libraries)
  moreover have "(case map_of st ''image'' of None \<Rightarrow> YStr [] | Some v \<Rightarrow> v) = YStr s"
    using iv s by simp
  ultimately show ?thesis
    using rb st ll libs by blast
qed

lemma takeWhile_no_sep: "c \<notin> set s \<Longrightarrow> takeWhile (\<lambda>x. x \<noteq> c) s = s"
  by (induction s) auto

lemma container_section_eq:
  "container_section img =
     YMap [(''image'', YStr (takeWhile (\<lambda>x. x \<noteq> CHR ''@'') img)), (''tag'', YStr ''latest'')]"
proof (cases "CHR ''@'' \<in> set img")
  case True
  then show ?thesis by (simp add: container_section_def hd_split_on)
next
  case False
  then show ?thesis by (simp add: container_section_def takeWhile_no_sep)
qed

lemma main_convert_container:
  assumes "main_convert (YMap state) config = Inr (output, n, k)"
  shows "\<exists>s. (case map_of state ''image'' of None \<Rightarrow> YStr [] | Some v \<Rightarrow> v) = YStr s \<and>
             map_of output ''container'' =
               (if fst (parse_image s) = [] then None
                else Some (YMap [(''image'', YStr (takeWhile (\<lambda>x. x \<noteq> CHR ''@'') (fst (parse_image s)))),
                                 (''tag'', YStr ''latest'')]))"
proof -
  from main_convert_Inr [OF assms] obtain s libraries where
    s: "(case map_of state ''image'' of None \<Rightarrow> YStr [] | Some v \<Rightarrow> v) = YStr s" and
    out: "output = build_output (fst (parse_image s)) @ [(''libraries'', YList libraries)]"
    by auto
  have "map_of output ''container'' =
               (if fst (parse_image s) = [] then None
                else Some (container_section (fst (parse_image s))))"
    by (simp add: out build_output_eq)
  with s show ?thesis by (auto simp: container_section_eq)
qed

lemma library_entry_Inr:
  assumes "library_entry rb lib = Inr rcd"
  shows "\<exists>l conv ident.
           lib = YMap l \<and> convert_library (YMap l) = Inr conv \<and>
           map_of l ''id'' = Some ident \<and> hashable ident \<and>
           rcd = YMap (if py_key ident \<in> rb
                          then conv @ [(''_comment'', release_blocked_comment)]
                          else conv)"
proof -
  from assms obtain conv where conv: "convert_library lib = Inr conv"
    by (auto simp: library_entry_def split: sum.splits)
  then obtain l where l: "lib = YMap l"
    using convert_library_not_map [of lib] by (cases lib) auto
  from conv l convert_library_name_version [of l conv] obtain ident where
    ident: "map_of l ''id'' = Some ident" by auto
  from conv l convert_library_name_version [of l conv]
  have "map_of conv ''_comment'' = None"
    by simp
  then have "''_comment'' \<notin> fst ` set conv"
    by (simp add: map_of_eq_None_iff)
  then have new: "setitem conv ''_comment'' release_blocked_comment =
      conv @ [(''_comment'', release_blocked_comment)]"
    by (rule setitem_new)
  from assms conv l ident have h: "hashable ident"
    by (auto simp: library_entry_def set_contains_def split: if_splits)
  with assms conv l ident new
  have "rcd = YMap (if py_key ident \<in> rb
                          then conv @ [(''_comment'', release_blocked_comment)]
                          else conv)"
    by (auto simp: library_entry_def set_contains_def)
  with conv l ident h show ?thesis by blast
qed


lemma library_entry_fields:
  assumes "library_entry rb lib = Inr rcd"
  shows "\<exists>ident. field ''id'' lib = Some ident \<and> field ''name'' rcd = Some ident \<and>
           field ''_comment'' rcd =
             (if py_key ident \<in> rb then Some release_blocked_comment else None)"
proof -
  from library_entry_Inr [OF assms] obtain l conv ident where
    l: "lib = YMap l" and conv: "convert_library (YMap l) = Inr conv" and
    ident: "map_of l ''id'' = Some ident" and
    r: "rcd = YMap (if py_key ident \<in> rb
                       then conv @ [(''_comment'', release_blocked_comment)]
                       else conv)"
    by blast
  from convert_library_name_version [OF conv] ident
  have n: "map_of conv ''name'' = Some ident" and c: "map_of conv ''_comment'' = None"
    by simp_all
  from n have "field ''name'' rcd = Some ident"
    by (simp add: r)
  moreover from c have "field ''_comment'' rcd =
             (if py_key ident \<in> rb then Some release_blocked_comment else None)"
    by (simp add: r map_add_def)
  ultimately show ?thesis using l ident by simp
qed

lemma library_entry_no_id: "map_of l ''id'' = None \<Longrightarrow> library_entry rb (YMap l) = Inl KeyError"
  by (simp add: library_entry_def convert_library_YMap)

lemma convert_libraries_Inr:
  "convert_libraries rb acc libs = Inr r \<Longrightarrow>
     \<exists>rs. r = acc @ rs \<and> list_all2 (\<lambda>lib rcd. library_entry rb lib = Inr rcd) libs rs"
proof (induction libs arbitrary: acc)
  case Nil
  then show ?case by simp
next
  case (Cons lib rest)
  then obtain e where e: "library_entry rb lib = Inr e"
    and r: "convert_libraries rb (acc @ [e]) rest = Inr r"
    by (auto split: sum.splits)
  from Cons.IH [OF r] obtain rs where "r = (acc @ [e]) @ rs"
    and "list_all2 (\<lambda>lib rcd. library_entry rb lib = Inr rcd) rest rs" by blast
  with e show ?case by (intro exI [of _ "e # rs"]) simp
qed

lemma convert_libraries_fails:
  "lib \<in> set libs \<Longrightarrow> library_entry rb lib = Inl e \<Longrightarrow>
     \<exists>e'. convert_libraries rb acc libs = Inl e'"
proof (induction libs arbitrary: acc)
  case Nil
  then show ?case by simp
next
  case (Cons x rest)
  show ?case
  proof (cases "library_entry rb x")
    case (Inl e')
    then show ?thesis by simp
  next
    case (Inr rcd)
    with Cons.prems have "lib \<in> set rest" by auto
    from Cons.IH [OF this Cons.prems(2)] Inr show ?thesis by simp
  qed
qed

lemma convert_libraries_first_error:
  "convert_libraries rb acc pre = Inr r \<Longrightarrow> library_entry rb lib = Inl e \<Longrightarrow>
     convert_libraries rb acc (pre @ lib # post) = Inl e"
proof (induction pre arbitrary: acc)
  case Nil
  then show ?case by simp
next
  case (Cons x pre)
  then show ?case by (cases "library_entry rb x") auto
qed


lemma release_blocked_loop_Inr:
  "release_blocked_loop rb entries = Inr rb' \<Longrightarrow>
     py_key x \<in> rb' \<longleftrightarrow> py_key x \<in> rb \<or> list_ex (config_blocks x) entries"
proof (induction entries arbitrary: rb)
  case Nil
  then show ?case by simp
next
  case (Cons entry rest)
  from Cons.prems obtain m where m: "entry = YMap m"
    by (cases entry) (auto split: sum.splits)
  show ?case
  proof (cases "kept m ''release_blocked''")
    case None
    then have "\<not> truthy (case map_of m ''release_blocked'' of None \<Rightarrow> YNull | Some v \<Rightarrow> v)"
      by (auto simp: kept_def split: option.splits if_splits)
    with Cons.prems m have "release_blocked_loop rb rest = Inr rb'"
      by simp
    from Cons.IH [OF this] None m show ?thesis by simp
  next
    case (Some flag)
    then have t: "truthy (case map_of m ''release_blocked'' of None \<Rightarrow> YNull | Some v \<Rightarrow> v)"
      by (auto simp: kept_def split: option.splits if_splits)
    with Cons.prems m obtain ident where ident: "map_of m ''id'' = Some ident"
      by (auto split: option.splits)
    with Cons.prems m t have "hashable ident"
      and "release_blocked_loop (insert (py_key ident) rb) rest = Inr rb'"
      by (auto simp: set_add_def split: if_splits)
    from Cons.IH [OF this(2)] Some m ident show ?thesis by auto
  qed
qed

lemma extract_release_blocked_Inr:
  assumes "extract_release_blocked config = Inr rb"
  shows "py_key x \<in> rb \<longleftrightarrow> blocked_in_config config x"
proof -
  from assms obtain c where c: "config = YMap c"
    by (cases config) (auto simp: extract_release_blocked_def)
  show ?thesis
  proof (cases "kept c ''libraries''")
    case None
    then have f: "\<not> truthy (case map_of c ''libraries'' of None \<Rightarrow> YNull | Some v \<Rightarrow> v)"
      by (auto simp: kept_def split: option.splits if_splits)
    with assms c have "rb = {}"
      by (simp add: extract_release_blocked_def)
    moreover from f have "\<not> blocked_in_config config x"
      by (auto simp: blocked_in_config_def c split: option.splits yaml.splits)
    ultimately show ?thesis by simp
  next
    case (Some v)
    then have v: "map_of c ''libraries'' = Some v" "truthy v"
      by (auto simp: kept_def split: option.splits if_splits)
    with assms c obtain entries where it: "iter v = Inr entries"
      and loop: "release_blocked_loop {} entries = Inr rb"
      by (auto simp: extract_release_blocked_def split: sum.splits)
    have "v = YList entries"
    proof (cases v)
      case (YStr s)
      with v it obtain k rest where "entries = YStr k # rest" by (cases s) auto
      with loop show ?thesis by simp
    next
      case (YMap m)
      with v it obtain k rest where "entries = YStr k # rest" by (cases m) auto
      with loop show ?thesis by simp
    qed (use it in auto)
    with v have "blocked_in_config config x = list_ex (config_blocks x) entries"
      by (simp add: blocked_in_config_def c)
    with release_blocked_loop_Inr [OF loop, of x] show ?thesis by simp
  qed
qed

lemma extract_release_blocked_no_list:
  "map_of c ''libraries'' = None \<Longrightarrow> extract_release_blocked (YMap c) = Inr {}"
  by (simp add: extract_release_blocked_def)



lemma main_error:
  assumes "main w = (Some e, w')"
  shows "w' = w"
  using assms by (auto simp: main_def split: sum.splits prod.splits)

lemma main_convert_error:
  assumes "safe_load_file w (state_path (home w)) = Inr state"
      and "safe_load_file w (config_path (home w)) = Inr config"
      and "main_convert state config = Inl e"
  shows "main w = (Some e, w)"
  using assms by (simp add: main_def)

lemma main_state_error:
  assumes "safe_load_file w (state_path (home w)) = Inr state"
      and "\<And>config. \<exists>e. main_convert state config = Inl e"
  shows "\<exists>e. main w = (Some e, w)"
proof (cases "safe_load_file w (config_path (home w))")
  case (Inl e)
  with assms(1) show ?thesis by (simp add: main_def)
next
  case (Inr config)
  from assms(2) [of config] obtain e where "main_convert state config = Inl e" by blast
  with assms(1) Inr show ?thesis by (simp add: main_def)
qed


lemma main_convert_fails_without_id:
  assumes "field ''libraries'' state = Some (YList libs)"
      and "YMap lib \<in> set libs" and "map_of lib ''id'' = None"
  shows "\<exists>e. main_convert state config = Inl e"
proof (cases "main_convert state config")
  case (Inl e)
  then show ?thesis by blast
next
  case (Inr x)
  obtain out n k where "x = (out, n, k)" by (cases x) auto
  with Inr have "main_convert state config = Inr (out, n, k)" by simp
  from main_convert_Inr [OF this] obtain st rb lib_list libraries where
    st: "state = YMap st" and
    it: "iter (case map_of st ''libraries'' of None \<Rightarrow> YList [] | Some v \<Rightarrow> v) = Inr lib_list" and
    cl: "convert_libraries rb [] lib_list = Inr libraries"
    by blast
  from st it assms(1) have "lib_list = libs" by simp
  moreover from assms(3) have "library_entry rb (YMap lib) = Inl KeyError"
    by (rule library_entry_no_id)
  ultimately have "\<exists>e. convert_libraries rb [] lib_list = Inl e"
    using assms(2) by (auto intro: convert_libraries_fails)
  with cl show ?thesis by simp
qed

section \<open>The example run\<close>

lemma example_main_convert:
  "main_convert example_state example_config = Inr (example_output, 2, 2)"
  by (simp add: main_convert_def example_state_def example_config_def example_output_def
        example_lib_def example_record_def extract_release_blocked_def set_add_def
        set_contains_def parse_image_def build_output_def container_section_def
        library_entry_def convert_library_def convert_api_def copy_if_truthy_def
        release_blocked_comment_def)





lemma load_state_without_id:
  "safe_load_file world_without_id (state_path (home world_without_id)) = Inr state_without_id"
  by (simp add: safe_load_file_def world_without_id_def)

lemma load_config_without_id:
  "safe_load_file world_without_id (config_path (home world_without_id)) = Inr example_config"
  by (simp add: safe_load_file_def world_without_id_def state_path_def config_path_def)

lemma example_release_blocked:
  "extract_release_blocked example_config = Inr {YStr ''spanner'', YStr ''bigquery''}"
  by (simp add: extract_release_blocked_def example_config_def set_add_def)

lemma example_convert_libraries:
  "convert_libraries {YStr ''spanner'', YStr ''bigquery''} [] [YMap example_lib] =
     Inr [YMap example_record]"
  by (simp add: library_entry_def convert_library_def convert_api_def copy_if_truthy_def
        set_contains_def example_lib_def example_record_def)

section \<open>The claims\<close>

subsection \<open>The libraries of the output document\<close>



subsection \<open>The generate section of a converted library\<close>

text \<open>
  Claim C2. Whenever \<open>convert_library\<close> returns a record for a library mapping:
  if the library's \<^verbatim>\<open>apis\<close> is a non-empty list, the record has a generate section
  whose \<^verbatim>\<open>apis\<close> list has the length of the input list and, position by position,
  the path of the input API; an entry carries \<^verbatim>\<open>service_config\<close> exactly when the
  input API has a truthy one (present and not empty), with that value; the section
  carries \<^verbatim>\<open>keep\<close> exactly when \<^verbatim>\<open>preserve_regex\<close> is present and truthy, and
  \<^verbatim>\<open>remove\<close> exactly when \<^verbatim>\<open>remove_regex\<close> is. If \<^verbatim>\<open>apis\<close> is missing or the
  empty list, the record has no generate section.
\<close>

theorem convert_library_generate_section:
  assumes "convert_library (YMap lib) = Inr result"
  shows "(\<forall>apis. map_of lib ''apis'' = Some (YList apis) \<and> apis \<noteq> [] \<longrightarrow>
            (\<exists>generate entries.
               map_of result ''generate'' = Some (YMap generate) \<and>
               map_of generate ''apis'' = Some (YList entries) \<and>
               length entries = length apis \<and>
               (\<forall>i < length apis. \<exists>a e.
                  apis ! i = YMap a \<and> entries ! i = YMap e \<and>
                  map_of a ''path'' \<noteq> None \<and>
                  map_of e ''path'' = map_of a ''path'' \<and>
                  map_of e ''service_config'' = kept a ''service_config'') \<and>
               map_of generate ''keep'' = kept lib ''preserve_regex'' \<and>
               map_of generate ''remove'' = kept lib ''remove_regex'')) \<and>
         (map_of lib ''apis'' = None \<or> map_of lib ''apis'' = Some (YList []) \<longrightarrow>
            map_of result ''generate'' = None)"
proof (intro conjI allI impI)
  fix apis
  assume "map_of lib ''apis'' = Some (YList apis) \<and> apis \<noteq> []"
  then have k: "kept lib ''apis'' = Some (YList apis)"
    by (simp add: kept_def)
  from assms obtain ident where ident: "map_of lib ''id'' = Some ident"
    by (auto simp: convert_library_YMap split: option.splits)
  from assms k ident obtain entries where
    entries: "convert_apis [] apis = Inr entries" and
    result: "result =
      [(''name'', ident),
       (''version'', case map_of lib ''version'' of None \<Rightarrow> YNull | Some v \<Rightarrow> v)] @
      [(''generate'',
        YMap ([(''apis'', YList entries)] @
          (case kept lib ''preserve_regex'' of None \<Rightarrow> [] | Some v \<Rightarrow> [(''keep'', v)]) @
          (case kept lib ''remove_regex'' of None \<Rightarrow> [] | Some v \<Rightarrow> [(''remove'', v)])))]"
    by (auto simp: convert_library_YMap Let_def split: sum.splits)
  from convert_apis_Inr [OF entries]
  have rel: "list_all2 (\<lambda>api e. convert_api api = Inr e) apis entries" by simp
  let ?generate = "[(''apis'', YList entries)] @
          (case kept lib ''preserve_regex'' of None \<Rightarrow> [] | Some v \<Rightarrow> [(''keep'', v)]) @
          (case kept lib ''remove_regex'' of None \<Rightarrow> [] | Some v \<Rightarrow> [(''remove'', v)])"
  have g: "map_of result ''generate'' = Some (YMap ?generate)"
    by (simp add: result)
  have a: "map_of ?generate ''apis'' = Some (YList entries)"
    by simp
  have len: "length entries = length apis"
    using rel by (simp add: list_all2_lengthD)
  have each: "\<forall>i < length apis. \<exists>a e.
                  apis ! i = YMap a \<and> entries ! i = YMap e \<and>
                  map_of a ''path'' \<noteq> None \<and>
                  map_of e ''path'' = map_of a ''path'' \<and>
                  map_of e ''service_config'' = kept a ''service_config''"
  proof (intro allI impI)
    fix i assume "i < length apis"
    with rel have "convert_api (apis ! i) = Inr (entries ! i)"
      by (auto dest: list_all2_nthD)
    from convert_api_Inr [OF this] show "\<exists>a e.
                  apis ! i = YMap a \<and> entries ! i = YMap e \<and>
                  map_of a ''path'' \<noteq> None \<and>
                  map_of e ''path'' = map_of a ''path'' \<and>
                  map_of e ''service_config'' = kept a ''service_config''"
      by (auto split: option.splits)
  qed
  have keep: "map_of ?generate ''keep'' = kept lib ''preserve_regex''"
    by (simp split: option.splits)
  have remove: "map_of ?generate ''remove'' = kept lib ''remove_regex''"
    by (simp split: option.splits)
  from g a len each keep remove
  show "\<exists>generate entries.
               map_of result ''generate'' = Some (YMap generate) \<and>
               map_of generate ''apis'' = Some (YList entries) \<and>
               length entries = length apis \<and>
               (\<forall>i < length apis. \<exists>a e.
                  apis ! i = YMap a \<and> entries ! i = YMap e \<and>
                  map_of a ''path'' \<noteq> None \<and>
                  map_of e ''path'' = map_of a ''path'' \<and>
                  map_of e ''service_config'' = kept a ''service_config'') \<and>
               map_of generate ''keep'' = kept lib ''preserve_regex'' \<and>
               map_of generate ''remove'' = kept lib ''remove_regex''"
    by blast
next
  assume "map_of lib ''apis'' = None \<or> map_of lib ''apis'' = Some (YList [])"
  then have "kept lib ''apis'' = None"
    by (auto simp: kept_def)
  with assms show "map_of result ''generate'' = None"
    by (auto simp: convert_library_YMap Let_def split: option.splits)
qed

theorem convert_library_generate_section_witness:
  "convert_library (YMap example_lib) = Inr example_record \<and>
   (\<exists>generate entries.
      map_of example_record ''generate'' = Some (YMap generate) \<and>
      map_of generate ''apis'' = Some (YList entries) \<and>
      length entries = 2 \<and>
      map_of generate ''keep'' = Some (YList [YStr ''^storage/keep'']) \<and>
      map_of generate ''remove'' = None)"
proof -
  let ?apis = "[YMap [(''path'', YStr ''google/storage/v1''),
                (''service_config'', YStr ''storage_v1.yaml'')],
          YMap [(''path'', YStr ''google/storage/v2''),
                (''service_config'', YStr [])]]"
  have h: "convert_library (YMap example_lib) = Inr example_record"
    by (simp add: example_lib_def example_record_def convert_library_def convert_api_def
          copy_if_truthy_def)
  have a: "map_of example_lib ''apis'' = Some (YList ?apis) \<and> ?apis \<noteq> []"
    by (simp add: example_lib_def)
  have k: "kept example_lib ''preserve_regex'' = Some (YList [YStr ''^storage/keep''])"
    by (simp add: example_lib_def kept_def)
  have r: "kept example_lib ''remove_regex'' = None"
    by (simp add: example_lib_def kept_def)
  from convert_library_generate_section [OF h] a
  obtain generate entries where
    "map_of example_record ''generate'' = Some (YMap generate)"
    "map_of generate ''apis'' = Some (YList entries)"
    "length entries = length ?apis"
    "map_of generate ''keep'' = kept example_lib ''preserve_regex''"
    "map_of generate ''remove'' = kept example_lib ''remove_regex''"
    by blast
  with h k r show ?thesis by auto
qed

subsection \<open>A library without a version\<close>

text \<open>
  Claim C10, amended. For a library mapping that has an identifier and no version:
  \<open>convert_library\<close> returns a record exactly when the \<^verbatim>\<open>apis\<close> value is
  convertible (missing, falsy, or a list of mappings that each have a \<^verbatim>\<open>path\<close>), and
  every record it returns has the identifier as name and \<^verbatim>\<open>None\<close> as version. The
  missing version never makes it fail; an API entry without a path does.
\<close>

theorem convert_library_without_version:
  assumes "map_of lib ''id'' = Some ident" and "map_of lib ''version'' = None"
  shows "((\<exists>result. convert_library (YMap lib) = Inr result) \<longleftrightarrow> apis_convertible lib) \<and>
         (\<forall>result. convert_library (YMap lib) = Inr result \<longrightarrow>
            map_of result ''name'' = Some ident \<and> map_of result ''version'' = Some YNull)"
proof (intro conjI allI impI)
  show "(\<exists>result. convert_library (YMap lib) = Inr result) \<longleftrightarrow> apis_convertible lib"
    using assms(1) by (simp add: convert_library_ok)
next
  fix result
  assume "convert_library (YMap lib) = Inr result"
  from convert_library_name_version [OF this] assms
  show "map_of result ''name'' = Some ident" and "map_of result ''version'' = Some YNull"
    by simp_all
qed

theorem convert_library_without_version_witness:
  "map_of [(''id'', YStr ''storage''),
           (''apis'', YList [YMap [(''path'', YStr ''google/storage/v1'')]])] ''id''
     = Some (YStr ''storage'') \<and>
   map_of [(''id'', YStr ''storage''),
           (''apis'', YList [YMap [(''path'', YStr ''google/storage/v1'')]])] ''version''
     = None \<and>
   (\<exists>result. convert_library (YMap [(''id'', YStr ''storage''),
           (''apis'', YList [YMap [(''path'', YStr ''google/storage/v1'')]])]) = Inr result \<and>
      map_of result ''name'' = Some (YStr ''storage'') \<and>
      map_of result ''version'' = Some YNull)"
proof -
  let ?lib = "[(''id'', YStr ''storage''),
               (''apis'', YList [YMap [(''path'', YStr ''google/storage/v1'')]])]"
  have h1: "map_of ?lib ''id'' = Some (YStr ''storage'')" by simp
  have h2: "map_of ?lib ''version'' = None" by simp
  have ok: "apis_convertible ?lib" by (simp add: apis_convertible_def)
  from convert_library_without_version [OF h1 h2] ok
  have "\<exists>result. convert_library (YMap ?lib) = Inr result \<and>
      map_of result ''name'' = Some (YStr ''storage'') \<and>
      map_of result ''version'' = Some YNull"
    by blast
  with h1 h2 show ?thesis by blast
qed

text \<open>
  The claim as stated fails: this library has an identifier and no version, and
  \<open>convert_library\<close> raises KeyError at \<^verbatim>\<open>api['path']\<close>.
\<close>

theorem convert_library_without_version_counterexample:
  "map_of [(''id'', YStr ''storage''),
           (''apis'', YList [YMap [(''service_config'', YStr ''storage_v1.yaml'')]])] ''id''
     = Some (YStr ''storage'') \<and>
   map_of [(''id'', YStr ''storage''),
           (''apis'', YList [YMap [(''service_config'', YStr ''storage_v1.yaml'')]])] ''version''
     = None \<and>
   convert_library (YMap [(''id'', YStr ''storage''),
           (''apis'', YList [YMap [(''service_config'', YStr ''storage_v1.yaml'')]])])
     = Inl KeyError"
  by (simp add: convert_library_def convert_api_def copy_if_truthy_def)

subsection \<open>The release-blocked annotation\<close>

text \<open>
  Claim C3. Whenever the conversion returns an output document for a state document
  whose \<^verbatim>\<open>libraries\<close> is a list, the output has one record per library, and the record
  of a library carries \<^verbatim>\<open>_comment\<close> with the text
  \<^verbatim>\<open>release_blocked: true (handwritten code)\<close> when the config document's library
  list has an entry with the library's identifier and a truthy \<^verbatim>\<open>release_blocked\<close>, and
  no \<^verbatim>\<open>_comment\<close> otherwise. A config document without a library list gives the empty
  release-blocked set, a count of 0 and no annotation.
\<close>

theorem release_blocked_annotation:
  assumes "main_convert state config = Inr (out, n, k)"
      and "field ''libraries'' state = Some (YList libs)"
  shows "\<exists>libraries.
           map_of out ''libraries'' = Some (YList libraries) \<and>
           length libraries = length libs \<and>
           (\<forall>i < length libs. \<exists>ident.
              field ''id'' (libs ! i) = Some ident \<and>
              field ''_comment'' (libraries ! i) =
                (if blocked_in_config config ident
                 then Some (YStr ''release_blocked: true (handwritten code)'')
                 else None)) \<and>
           (field ''libraries'' config = None \<longrightarrow>
              extract_release_blocked config = Inr {} \<and> k = 0 \<and>
              (\<forall>r \<in> set libraries. field ''_comment'' r = None))"
proof -
  from main_convert_Inr [OF assms(1)] obtain st rb s lib_list libraries where
    st: "state = YMap st" and
    rb: "extract_release_blocked config = Inr rb" and
    it: "iter (case map_of st ''libraries'' of None \<Rightarrow> YList [] | Some v \<Rightarrow> v) = Inr lib_list" and
    cl: "convert_libraries rb [] lib_list = Inr libraries" and
    out: "out = build_output (fst (parse_image s)) @ [(''libraries'', YList libraries)]" and
    k: "k = card rb"
    by blast
  from st it assms(2) have "lib_list = libs" by simp
  with convert_libraries_Inr [OF cl]
  have rel: "list_all2 (\<lambda>lib rcd. library_entry rb lib = Inr rcd) libs libraries"
    by simp
  have l: "map_of out ''libraries'' = Some (YList libraries)"
    by (simp add: out build_output_eq)
  have len: "length libraries = length libs"
    using rel by (simp add: list_all2_lengthD)
  have each: "\<forall>i < length libs. \<exists>ident.
              field ''id'' (libs ! i) = Some ident \<and>
              field ''_comment'' (libraries ! i) =
                (if blocked_in_config config ident
                 then Some (YStr ''release_blocked: true (handwritten code)'')
                 else None)"
  proof (intro allI impI)
    fix i assume "i < length libs"
    with rel have "library_entry rb (libs ! i) = Inr (libraries ! i)"
      by (auto dest: list_all2_nthD)
    from library_entry_fields [OF this] obtain ident where
      "field ''id'' (libs ! i) = Some ident"
      "field ''_comment'' (libraries ! i) =
         (if py_key ident \<in> rb then Some release_blocked_comment else None)"
      by blast
    with extract_release_blocked_Inr [OF rb, of ident]
    show "\<exists>ident.
              field ''id'' (libs ! i) = Some ident \<and>
              field ''_comment'' (libraries ! i) =
                (if blocked_in_config config ident
                 then Some (YStr ''release_blocked: true (handwritten code)'')
                 else None)"
      by (simp add: release_blocked_comment_def)
  qed
  have none: "field ''libraries'' config = None \<longrightarrow>
              extract_release_blocked config = Inr {} \<and> k = 0 \<and>
              (\<forall>r \<in> set libraries. field ''_comment'' r = None)"
  proof
    assume f: "field ''libraries'' config = None"
    from rb obtain c where c: "config = YMap c"
      by (cases config) (auto simp: extract_release_blocked_def)
    with f have "extract_release_blocked config = Inr {}"
      by (simp add: extract_release_blocked_no_list)
    with rb have e: "rb = {}" by simp
    have "\<forall>r \<in> set libraries. field ''_comment'' r = None"
    proof
      fix r assume "r \<in> set libraries"
      then obtain i where "i < length libraries" "r = libraries ! i"
        by (auto simp: in_set_conv_nth)
      with rel have "library_entry rb (libs ! i) = Inr r"
        by (auto dest: list_all2_nthD2)
      from library_entry_fields [OF this] e show "field ''_comment'' r = None"
        by auto
    qed
    with e k rb show "extract_release_blocked config = Inr {} \<and> k = 0 \<and>
              (\<forall>r \<in> set libraries. field ''_comment'' r = None)"
      by simp
  qed
  from l len each none show ?thesis
    by (intro exI [of _ libraries] conjI) assumption+
qed

theorem release_blocked_annotation_witness:
  "main_convert example_state example_config = Inr (example_output, 2, 2) \<and>
   field ''libraries'' example_state =
     Some (YList [YMap example_lib,
                  YMap [(''id'', YStr ''bigquery''), (''version'', YStr ''1.0.0'')]]) \<and>
   blocked_in_config example_config (YStr ''bigquery'') \<and>
   \<not> blocked_in_config example_config (YStr ''storage'') \<and>
   (\<exists>libraries.
      map_of example_output ''libraries'' = Some (YList libraries) \<and>
      length libraries =
        length [YMap example_lib,
                YMap [(''id'', YStr ''bigquery''), (''version'', YStr ''1.0.0'')]] \<and>
      (\<forall>i < length [YMap example_lib,
                YMap [(''id'', YStr ''bigquery''), (''version'', YStr ''1.0.0'')]]. \<exists>ident.
         field ''id'' ([YMap example_lib,
                YMap [(''id'', YStr ''bigquery''), (''version'', YStr ''1.0.0'')]] ! i) =
           Some ident \<and>
         field ''_comment'' (libraries ! i) =
           (if blocked_in_config example_config ident
            then Some (YStr ''release_blocked: true (handwritten code)'')
            else None)) \<and>
      (field ''libraries'' example_config = None \<longrightarrow>
         extract_release_blocked example_config = Inr {} \<and> 2 = (0::nat) \<and>
         (\<forall>r \<in> set libraries. field ''_comment'' r = None)))"
proof -
  have f: "field ''libraries'' example_state =
     Some (YList [YMap example_lib,
                  YMap [(''id'', YStr ''bigquery''), (''version'', YStr ''1.0.0'')]])"
    by (simp add: example_state_def)
  have b: "blocked_in_config example_config (YStr ''bigquery'')"
    by (simp add: blocked_in_config_def example_config_def kept_def)
  have s: "\<not> blocked_in_config example_config (YStr ''storage'')"
    by (simp add: blocked_in_config_def example_config_def kept_def)
  show ?thesis
    by (rule conjI [OF example_main_convert conjI [OF f conjI [OF b conjI [OF s
          release_blocked_annotation [OF example_main_convert f]]]]])
qed

subsection \<open>The container section\<close>

text \<open>
  Claim C4, amended. Whenever the conversion returns an output document, the state's
  image value (the empty string when the key is missing) is a string \<open>s\<close>. The output
  has a container section exactly when the image part that the parser computes from
  \<open>s\<close> is not empty; the section then has the two keys \<^verbatim>\<open>image\<close> and \<^verbatim>\<open>tag\<close>, and
  the tag is the literal \<^verbatim>\<open>latest\<close>, whatever branch the parser took and whatever
  tag it computed. When the image part is empty there is no container section, even
  for a non-empty reference.
\<close>

theorem container_tag_latest:
  assumes "main_convert (YMap state) config = Inr (output, n, k)"
  shows "\<exists>s. (case map_of state ''image'' of None \<Rightarrow> YStr [] | Some v \<Rightarrow> v) = YStr s \<and>
             (fst (parse_image s) \<noteq> [] \<longrightarrow>
                (\<exists>img. map_of output ''container'' =
                         Some (YMap [(''image'', YStr img), (''tag'', YStr ''latest'')]))) \<and>
             (fst (parse_image s) = [] \<longrightarrow> map_of output ''container'' = None)"
proof -
  from main_convert_container [OF assms] obtain s where
    s: "(case map_of state ''image'' of None \<Rightarrow> YStr [] | Some v \<Rightarrow> v) = YStr s" and
    c: "map_of output ''container'' =
               (if fst (parse_image s) = [] then None
                else Some (YMap [(''image'', YStr (takeWhile (\<lambda>x. x \<noteq> CHR ''@'') (fst (parse_image s)))),
                                 (''tag'', YStr ''latest'')]))"
    by blast
  from c have "fst (parse_image s) \<noteq> [] \<longrightarrow>
                (\<exists>img. map_of output ''container'' =
                         Some (YMap [(''image'', YStr img), (''tag'', YStr ''latest'')]))"
    by simp
  moreover from c have "fst (parse_image s) = [] \<longrightarrow> map_of output ''container'' = None"
    by simp
  ultimately show ?thesis using s by blast
qed

theorem container_tag_latest_witness:
  "main_convert (YMap [(''image'', YStr ''gcr.io/foo/bar@sha256:abcd1234'')]) (YMap []) =
     Inr ([(''version'', YStr ''v0.5.0''), (''language'', YStr ''go''),
           (''container'', YMap [(''image'', YStr ''gcr.io/foo''), (''tag'', YStr ''latest'')]),
           (''generate'', generate_section), (''release'', release_section),
           (''libraries'', YList [])], 0, 0) \<and>
   (\<exists>s. (case map_of [(''image'', YStr ''gcr.io/foo/bar@sha256:abcd1234'')] ''image'' of
           None \<Rightarrow> YStr [] | Some v \<Rightarrow> v) = YStr s \<and>
        (fst (parse_image s) \<noteq> [] \<longrightarrow>
           (\<exists>img. map_of [(''version'', YStr ''v0.5.0''), (''language'', YStr ''go''),
           (''container'', YMap [(''image'', YStr ''gcr.io/foo''), (''tag'', YStr ''latest'')]),
           (''generate'', generate_section), (''release'', release_section),
           (''libraries'', YList [])] ''container'' =
                    Some (YMap [(''image'', YStr img), (''tag'', YStr ''latest'')]))) \<and>
        (fst (parse_image s) = [] \<longrightarrow>
           map_of [(''version'', YStr ''v0.5.0''), (''language'', YStr ''go''),
           (''container'', YMap [(''image'', YStr ''gcr.io/foo''), (''tag'', YStr ''latest'')]),
           (''generate'', generate_section), (''release'', release_section),
           (''libraries'', YList [])] ''container'' = None))"
proof -
  have h: "main_convert (YMap [(''image'', YStr ''gcr.io/foo/bar@sha256:abcd1234'')]) (YMap []) =
     Inr ([(''version'', YStr ''v0.5.0''), (''language'', YStr ''go''),
           (''container'', YMap [(''image'', YStr ''gcr.io/foo''), (''tag'', YStr ''latest'')]),
           (''generate'', generate_section), (''release'', release_section),
           (''libraries'', YList [])], 0, 0)"
    by (simp add: main_convert_def extract_release_blocked_def parse_image_def
          build_output_def container_section_def)
  show ?thesis
    by (rule conjI [OF h container_tag_latest [OF h]])
qed

text \<open>
  The claim as stated fails: the reference \<^verbatim>\<open>:v2\<close> is not empty, its image part is,
  and the output document has no container section.
\<close>

theorem container_tag_latest_counterexample:
  "main_convert (YMap [(''image'', YStr '':v2'')]) (YMap []) =
     Inr ([(''version'', YStr ''v0.5.0''), (''language'', YStr ''go''),
           (''generate'', generate_section), (''release'', release_section),
           (''libraries'', YList [])], 0, 0) \<and>
   map_of [(''version'', YStr ''v0.5.0''), (''language'', YStr ''go''),
           (''generate'', generate_section), (''release'', release_section),
           (''libraries'', YList [])] ''container'' = None"
  by (simp add: main_convert_def extract_release_blocked_def parse_image_def rsplit1_def
        build_output_def)

subsection \<open>The parser on a reference with a digest marker\<close>

text \<open>
  Claim C5, amended. A reference \<open>s\<close> that contains \<^verbatim>\<open>@sha256\<close> has a first \<^verbatim>\<open>@\<close>;
  \<open>base\<close> is the text before it. The image is \<open>base\<close> without its last \<^verbatim>\<open>/\<close> and the
  segment after it when \<open>base\<close> contains a \<^verbatim>\<open>/\<close>, and \<open>base\<close> otherwise. The tag is
  \<^verbatim>\<open>latest\<close> when \<open>base\<close> contains no \<^verbatim>\<open>:\<close>; when it does, the tag is the text after
  the last \<^verbatim>\<open>:\<close> of the whole reference \<open>s\<close> (in a digest reference, the digest), not
  of \<open>base\<close>.
\<close>

theorem parse_image_digest:
  assumes "is_substr ''@sha256'' s"
  shows "\<exists>base rest.
           s = base @ CHR ''@'' # rest \<and> CHR ''@'' \<notin> set base \<and>
           (CHR ''/'' \<in> set base \<longrightarrow>
              (\<exists>seg. base = fst (parse_image s) @ CHR ''/'' # seg \<and> CHR ''/'' \<notin> set seg)) \<and>
           (CHR ''/'' \<notin> set base \<longrightarrow> fst (parse_image s) = base) \<and>
           (CHR '':'' \<in> set base \<longrightarrow>
              (\<exists>pre. s = pre @ CHR '':'' # snd (parse_image s) \<and>
                     CHR '':'' \<notin> set (snd (parse_image s)))) \<and>
           (CHR '':'' \<notin> set base \<longrightarrow> snd (parse_image s) = ''latest'')"
proof -
  let ?base = "takeWhile (\<lambda>x. x \<noteq> CHR ''@'') s"
  let ?rest = "tl (dropWhile (\<lambda>x. x \<noteq> CHR ''@'') s)"
  have at: "CHR ''@'' \<in> set s"
    using assms by (rule is_substr_first)
  then have "dropWhile (\<lambda>x. x \<noteq> CHR ''@'') s \<noteq> []"
    by (simp add: dropWhile_eq_Nil_conv)
  then have "dropWhile (\<lambda>x. x \<noteq> CHR ''@'') s = CHR ''@'' # ?rest"
    using hd_dropWhile [of "\<lambda>x. x \<noteq> CHR ''@''" s]
    by (cases "dropWhile (\<lambda>x. x \<noteq> CHR ''@'') s") auto
  then have s: "s = ?base @ CHR ''@'' # ?rest"
    using takeWhile_dropWhile_id [of "\<lambda>x. x \<noteq> CHR ''@''" s] by simp
  have nb: "CHR ''@'' \<notin> set ?base"
    by (auto dest: set_takeWhileD)
  have img: "fst (parse_image s) =
      (if CHR ''/'' \<in> set ?base then join_str ''/'' (butlast (split_on CHR ''/'' ?base))
       else ?base)"
    using assms by (simp add: parse_image_def Let_def hd_split_on)
  have tag: "snd (parse_image s) =
      (if CHR '':'' \<in> set ?base then last (split_on CHR '':'' s) else ''latest'')"
    using assms by (simp add: parse_image_def Let_def hd_split_on)
  have c1: "CHR ''/'' \<in> set ?base \<longrightarrow>
      (\<exists>seg. ?base = fst (parse_image s) @ CHR ''/'' # seg \<and> CHR ''/'' \<notin> set seg)"
  proof
    assume sl: "CHR ''/'' \<in> set ?base"
    from split_on_last [OF sl] img sl
    have "?base = fst (parse_image s) @ CHR ''/'' # last (split_on CHR ''/'' ?base) \<and>
          CHR ''/'' \<notin> set (last (split_on CHR ''/'' ?base))"
      by simp
    then show "\<exists>seg. ?base = fst (parse_image s) @ CHR ''/'' # seg \<and> CHR ''/'' \<notin> set seg"
      by blast
  qed
  have c2: "CHR ''/'' \<notin> set ?base \<longrightarrow> fst (parse_image s) = ?base"
    using img by simp
  have c3: "CHR '':'' \<in> set ?base \<longrightarrow>
      (\<exists>pre. s = pre @ CHR '':'' # snd (parse_image s) \<and>
             CHR '':'' \<notin> set (snd (parse_image s)))"
  proof
    assume co: "CHR '':'' \<in> set ?base"
    then have "CHR '':'' \<in> set s" by (auto dest: set_takeWhileD)
    from split_on_last [OF this] tag co
    show "\<exists>pre. s = pre @ CHR '':'' # snd (parse_image s) \<and>
             CHR '':'' \<notin> set (snd (parse_image s))"
      by auto
  qed
  have c4: "CHR '':'' \<notin> set ?base \<longrightarrow> snd (parse_image s) = ''latest''"
    using tag by simp
  from s nb c1 c2 c3 c4 show ?thesis by blast
qed

theorem parse_image_digest_witness:
  "is_substr ''@sha256'' ''gcr.io/foo/bar@sha256:abcd1234'' \<and>
   parse_image ''gcr.io/foo/bar@sha256:abcd1234'' = (''gcr.io/foo'', ''latest'') \<and>
   (\<exists>base rest.
      ''gcr.io/foo/bar@sha256:abcd1234'' = base @ CHR ''@'' # rest \<and> CHR ''@'' \<notin> set base \<and>
      (CHR ''/'' \<in> set base \<longrightarrow>
         (\<exists>seg. base = fst (parse_image ''gcr.io/foo/bar@sha256:abcd1234'') @ CHR ''/'' # seg \<and>
                CHR ''/'' \<notin> set seg)) \<and>
      (CHR ''/'' \<notin> set base \<longrightarrow> fst (parse_image ''gcr.io/foo/bar@sha256:abcd1234'') = base) \<and>
      (CHR '':'' \<in> set base \<longrightarrow>
         (\<exists>pre. ''gcr.io/foo/bar@sha256:abcd1234'' =
                  pre @ CHR '':'' # snd (parse_image ''gcr.io/foo/bar@sha256:abcd1234'') \<and>
                CHR '':'' \<notin> set (snd (parse_image ''gcr.io/foo/bar@sha256:abcd1234'')))) \<and>
      (CHR '':'' \<notin> set base \<longrightarrow>
         snd (parse_image ''gcr.io/foo/bar@sha256:abcd1234'') = ''latest''))"
proof -
  have h: "is_substr ''@sha256'' ''gcr.io/foo/bar@sha256:abcd1234''"
    by simp
  have v: "parse_image ''gcr.io/foo/bar@sha256:abcd1234'' = (''gcr.io/foo'', ''latest'')"
    by (simp add: parse_image_def)
  show ?thesis
    by (rule conjI [OF h conjI [OF v parse_image_digest [OF h]]])
qed

text \<open>
  The claim as stated fails: in this reference the segment after the last \<^verbatim>\<open>:\<close>
  before the \<^verbatim>\<open>@\<close> is \<^verbatim>\<open>v1\<close>, and the tag the parser computes is the digest.
\<close>

theorem parse_image_digest_counterexample:
  "is_substr ''@sha256'' ''gcr.io/foo/bar:v1@sha256:abcd1234'' \<and>
   hd (split_on CHR ''@'' ''gcr.io/foo/bar:v1@sha256:abcd1234'') = ''gcr.io/foo/bar:v1'' \<and>
   last (split_on CHR '':'' ''gcr.io/foo/bar:v1'') = ''v1'' \<and>
   parse_image ''gcr.io/foo/bar:v1@sha256:abcd1234'' = (''gcr.io/foo'', ''abcd1234'')"
  by (simp add: parse_image_def)

subsection \<open>The parser on a reference without a digest marker\<close>

text \<open>
  Claim C6. For a reference \<open>s\<close> that does not contain \<^verbatim>\<open>@sha256\<close>: when \<open>s\<close> contains
  a \<^verbatim>\<open>:\<close>, the parser splits at the last one, the text before it is the image and the
  text after it the tag; when it contains none, the image is \<open>s\<close> and the tag is
  \<^verbatim>\<open>latest\<close>. In the output document of any successful conversion of a state with
  this reference and a non-empty image part, the container section has that image (cut
  at a \<^verbatim>\<open>@\<close>, if it has one) and the tag \<^verbatim>\<open>latest\<close>. In particular
  \<^verbatim>\<open>gcr.io/foo/bar:v2\<close> gives the image \<^verbatim>\<open>gcr.io/foo/bar\<close>.
\<close>

theorem parse_image_no_digest:
  assumes "\<not> is_substr ''@sha256'' s"
  shows "(CHR '':'' \<in> set s \<longrightarrow>
            (\<exists>img tag. s = img @ CHR '':'' # tag \<and> CHR '':'' \<notin> set tag \<and>
                       parse_image s = (img, tag))) \<and>
         (CHR '':'' \<notin> set s \<longrightarrow> parse_image s = (s, ''latest'')) \<and>
         (\<forall>state config output n k.
            map_of state ''image'' = Some (YStr s) \<and>
            main_convert (YMap state) config = Inr (output, n, k) \<and>
            fst (parse_image s) \<noteq> [] \<longrightarrow>
            map_of output ''container'' =
              Some (YMap [(''image'', YStr (takeWhile (\<lambda>x. x \<noteq> CHR ''@'') (fst (parse_image s)))),
                          (''tag'', YStr ''latest'')])) \<and>
         parse_image ''gcr.io/foo/bar:v2'' = (''gcr.io/foo/bar'', ''v2'')"
proof (intro conjI impI allI)
  assume "CHR '':'' \<in> set s"
  from rsplit1_sep [OF this] obtain a b where
    "rsplit1 CHR '':'' s = [a, b]" "s = a @ CHR '':'' # b" "CHR '':'' \<notin> set b"
    by blast
  moreover from this assms have "parse_image s = (a, b)"
    by (simp add: parse_image_def)
  ultimately show "\<exists>img tag. s = img @ CHR '':'' # tag \<and> CHR '':'' \<notin> set tag \<and>
                       parse_image s = (img, tag)"
    by blast
next
  assume "CHR '':'' \<notin> set s"
  with assms show "parse_image s = (s, ''latest'')"
    by (simp add: parse_image_def rsplit1_no_sep)
next
  fix state config out n k
  assume a: "map_of state ''image'' = Some (YStr s) \<and>
            main_convert (YMap state) config = Inr (out, n, k) \<and>
            fst (parse_image s) \<noteq> []"
  then have "main_convert (YMap state) config = Inr (out, n, k)" by simp
  from main_convert_container [OF this] a
  show "map_of out ''container'' =
              Some (YMap [(''image'', YStr (takeWhile (\<lambda>x. x \<noteq> CHR ''@'') (fst (parse_image s)))),
                          (''tag'', YStr ''latest'')])"
    by auto
next
  show "parse_image ''gcr.io/foo/bar:v2'' = (''gcr.io/foo/bar'', ''v2'')"
    by (simp add: parse_image_def rsplit1_def)
qed

theorem parse_image_no_digest_witness:
  "\<not> is_substr ''@sha256'' ''gcr.io/foo/bar:v2'' \<and>
   parse_image ''gcr.io/foo/bar:v2'' = (''gcr.io/foo/bar'', ''v2'') \<and>
   main_convert (YMap [(''image'', YStr ''gcr.io/foo/bar:v2'')]) (YMap []) =
     Inr ([(''version'', YStr ''v0.5.0''), (''language'', YStr ''go''),
           (''container'', YMap [(''image'', YStr ''gcr.io/foo/bar''), (''tag'', YStr ''latest'')]),
           (''generate'', generate_section), (''release'', release_section),
           (''libraries'', YList [])], 0, 0) \<and>
   map_of [(''version'', YStr ''v0.5.0''), (''language'', YStr ''go''),
           (''container'', YMap [(''image'', YStr ''gcr.io/foo/bar''), (''tag'', YStr ''latest'')]),
           (''generate'', generate_section), (''release'', release_section),
           (''libraries'', YList [])] ''container'' =
     Some (YMap [(''image'', YStr ''gcr.io/foo/bar''), (''tag'', YStr ''latest'')])"
proof -
  let ?s = "''gcr.io/foo/bar:v2''"
  let ?state = "[(''image'', YStr ?s)]"
  let ?out = "[(''version'', YStr ''v0.5.0''), (''language'', YStr ''go''),
           (''container'', YMap [(''image'', YStr ''gcr.io/foo/bar''), (''tag'', YStr ''latest'')]),
           (''generate'', generate_section), (''release'', release_section),
           (''libraries'', YList [])]"
  have h: "\<not> is_substr ''@sha256'' ?s"
    by simp
  have m: "main_convert (YMap ?state) (YMap []) = Inr (?out, 0, 0)"
    by (simp add: main_convert_def extract_release_blocked_def parse_image_def rsplit1_def
          build_output_def container_section_def)
  have i: "map_of ?state ''image'' = Some (YStr ?s)"
    by simp
  note t = parse_image_no_digest [OF h]
  from t have p: "parse_image ?s = (''gcr.io/foo/bar'', ''v2'')"
    by (elim conjE)
  then have ne: "fst (parse_image ?s) \<noteq> []"
    by simp
  from t have "\<forall>state config output n k.
            map_of state ''image'' = Some (YStr ?s) \<and>
            main_convert (YMap state) config = Inr (output, n, k) \<and>
            fst (parse_image ?s) \<noteq> [] \<longrightarrow>
            map_of output ''container'' =
              Some (YMap [(''image'', YStr (takeWhile (\<lambda>x. x \<noteq> CHR ''@'') (fst (parse_image ?s)))),
                          (''tag'', YStr ''latest'')])"
    by (elim conjE)
  with i m ne have "map_of ?out ''container'' =
              Some (YMap [(''image'', YStr (takeWhile (\<lambda>x. x \<noteq> CHR ''@'') (fst (parse_image ?s)))),
                          (''tag'', YStr ''latest'')])"
    by blast
  with p have c: "map_of ?out ''container'' =
     Some (YMap [(''image'', YStr ''gcr.io/foo/bar''), (''tag'', YStr ''latest'')])"
    by simp
  show ?thesis
    by (rule conjI [OF h conjI [OF p conjI [OF m c]]])
qed

subsection \<open>A library without an identifier\<close>

text \<open>
  Claim C7, amended. When the state document loads and some record of its library list
  is a mapping without \<^verbatim>\<open>id\<close>, the run ends with an exception and leaves the world as
  it was: no directory made, no document dumped, no line printed. The exception is
  KeyError whenever nothing before that record fails: the config document loads, the
  release-blocked identifiers are extracted, the image value is a string, and the
  records before it convert. Otherwise the run has already ended with the earlier
  exception.
\<close>

theorem missing_identifier_aborts:
  assumes "safe_load_file w (state_path (home w)) = Inr state"
      and "field ''libraries'' state = Some (YList libs)"
      and "YMap lib \<in> set libs" and "map_of lib ''id'' = None"
  shows "(\<exists>e. main w = (Some e, w)) \<and>
         (\<forall>config rb s pre post rcds.
            safe_load_file w (config_path (home w)) = Inr config \<and>
            extract_release_blocked config = Inr rb \<and>
            (case field ''image'' state of None \<Rightarrow> YStr [] | Some v \<Rightarrow> v) = YStr s \<and>
            libs = pre @ YMap lib # post \<and>
            convert_libraries rb [] pre = Inr rcds \<longrightarrow>
            main w = (Some KeyError, w))"
proof (intro conjI allI impI)
  show "\<exists>e. main w = (Some e, w)"
    using assms(1) main_convert_fails_without_id [OF assms(2-4)]
    by (rule main_state_error)
next
  fix config rb s pre post rcds
  assume a: "safe_load_file w (config_path (home w)) = Inr config \<and>
            extract_release_blocked config = Inr rb \<and>
            (case field ''image'' state of None \<Rightarrow> YStr [] | Some v \<Rightarrow> v) = YStr s \<and>
            libs = pre @ YMap lib # post \<and>
            convert_libraries rb [] pre = Inr rcds"
  from assms(2) obtain st where st: "state = YMap st"
    by (cases state) auto
  from a st have img: "get_method state ''image'' (YStr []) = Inr (YStr s)"
    by simp
  from assms(2) st have libs: "get_method state ''libraries'' (YList []) = Inr (YList libs)"
    by simp
  from assms(4) have "library_entry rb (YMap lib) = Inl KeyError"
    by (rule library_entry_no_id)
  with a have "convert_libraries rb [] libs = Inl KeyError"
    by (simp add: convert_libraries_first_error)
  with a img libs have "main_convert state config = Inl KeyError"
    by (simp add: main_convert_def split: prod.splits)
  with assms(1) a show "main w = (Some KeyError, w)"
    by (simp add: main_convert_error)
qed

theorem missing_identifier_aborts_witness:
  "safe_load_file world_without_id (state_path (home world_without_id)) = Inr state_without_id \<and>
   field ''libraries'' state_without_id =
     Some (YList [YMap example_lib, YMap [(''version'', YStr ''0.1.0'')]]) \<and>
   YMap [(''version'', YStr ''0.1.0'')] \<in>
     set [YMap example_lib, YMap [(''version'', YStr ''0.1.0'')]] \<and>
   map_of [(''version'', YStr ''0.1.0'')] ''id'' = None \<and>
   main world_without_id = (Some KeyError, world_without_id)"
proof -
  let ?lib = "[(''version'', YStr ''0.1.0'')]"
  let ?libs = "[YMap example_lib, YMap ?lib]"
  have f: "field ''libraries'' state_without_id = Some (YList ?libs)"
    by (simp add: state_without_id_def)
  have m: "YMap ?lib \<in> set ?libs" by simp
  have n: "map_of ?lib ''id'' = None" by simp
  have i: "(case field ''image'' state_without_id of None \<Rightarrow> YStr [] | Some v \<Rightarrow> v) = YStr []"
    by (simp add: state_without_id_def)
  have p: "?libs = [YMap example_lib] @ YMap ?lib # []" by simp
  from missing_identifier_aborts [OF load_state_without_id f m n]
  have "\<forall>config rb s pre post rcds.
            safe_load_file world_without_id (config_path (home world_without_id)) = Inr config \<and>
            extract_release_blocked config = Inr rb \<and>
            (case field ''image'' state_without_id of None \<Rightarrow> YStr [] | Some v \<Rightarrow> v) = YStr s \<and>
            ?libs = pre @ YMap ?lib # post \<and>
            convert_libraries rb [] pre = Inr rcds \<longrightarrow>
            main world_without_id = (Some KeyError, world_without_id)"
    by (rule conjunct2)
  with load_config_without_id example_release_blocked i p example_convert_libraries
  have r: "main world_without_id = (Some KeyError, world_without_id)"
    by blast
  show ?thesis
    by (rule conjI [OF load_state_without_id conjI [OF f conjI [OF m conjI [OF n r]]]])
qed

text \<open>
  The claim as stated fails: beside an empty config file, which loads as \<^verbatim>\<open>None\<close>,
  this state document with a record without identifier ends the run with
  AttributeError at \<^verbatim>\<open>config.get\<close>, which is no lookup error.
\<close>

theorem missing_identifier_aborts_counterexample:
  "safe_load_file world_without_id_empty_config
     (state_path (home world_without_id_empty_config)) = Inr state_without_id \<and>
   field ''libraries'' state_without_id =
     Some (YList [YMap example_lib, YMap [(''version'', YStr ''0.1.0'')]]) \<and>
   map_of [(''version'', YStr ''0.1.0'')] ''id'' = None \<and>
   main world_without_id_empty_config = (Some AttributeError, world_without_id_empty_config)"
proof -
  have s: "safe_load_file world_without_id_empty_config
     (state_path (home world_without_id_empty_config)) = Inr state_without_id"
    by (simp add: safe_load_file_def world_without_id_empty_config_def)
  have c: "safe_load_file world_without_id_empty_config
     (config_path (home world_without_id_empty_config)) = Inr YNull"
    by (simp add: safe_load_file_def world_without_id_empty_config_def state_path_def
          config_path_def)
  have f: "field ''libraries'' state_without_id =
     Some (YList [YMap example_lib, YMap [(''version'', YStr ''0.1.0'')]])"
    by (simp add: state_without_id_def)
  have m: "main_convert state_without_id YNull = Inl AttributeError"
    by (simp add: main_convert_def extract_release_blocked_def)
  have "main world_without_id_empty_config =
          (Some AttributeError, world_without_id_empty_config)"
    using s c m by (rule main_convert_error)
  with s f show ?thesis by simp
qed

subsection \<open>The key order of the output document\<close>



subsection \<open>Determinism\<close>



end
